theory Spec2Isabelle
  imports Main
begin

section \<open>Strings of the source language\<close>

text \<open>
  The TypeScript sources work on JavaScript strings. A string is modelled as a list of
  8-bit characters, one per UTF-16 code unit, so the model covers text whose code units
  are all below 256 (ASCII and Latin-1). \<open>length\<close> is then the \<open>.length\<close> of the source.
\<close>

definition is_space :: "char \<Rightarrow> bool" where
  \<comment> \<open>The class \<open>\s\<close> of a regular expression, which is also what \<open>trim()\<close> strips:
      TAB, LF, VT, FF, CR, SPACE and NO-BREAK SPACE are its members below 256.\<close>
  "is_space c = (c \<in> {CHR 0x09, CHR 0x0A, CHR 0x0B, CHR 0x0C, CHR 0x0D, CHR 0x20, CHR 0xA0})"

definition is_digit :: "char \<Rightarrow> bool" where
  \<comment> \<open>The class \<open>\d\<close>: the ten ASCII digits.\<close>
  "is_digit c = (c \<in> set ''0123456789'')"

definition is_lower :: "char \<Rightarrow> bool" where
  \<comment> \<open>The characters below 256 that have a single upper-case partner below 256:
      a to z, and the Latin-1 letters 0xE0 to 0xFE without the division sign 0xF7.\<close>
  "is_lower c = (let n = (of_char c :: nat) in
     (97 \<le> n \<and> n \<le> 122) \<or> (224 \<le> n \<and> n \<le> 254 \<and> n \<noteq> 247))"

definition upper_char :: "char \<Rightarrow> char" where
  "upper_char c = (if is_lower c then char_of ((of_char c :: nat) - 32) else c)"

definition toUpperCase :: "string \<Rightarrow> string" where
  \<comment> \<open>\<open>String.prototype.toUpperCase\<close>. The sharp s (0xDF) becomes the two letters SS. The
      micro sign (0xB5) and y with diaeresis (0xFF) have upper-case partners above 255
      only, which are no ASCII characters; they are left as they are here.\<close>
  "toUpperCase s = concat (map (\<lambda>c. if c = CHR 0xDF then ''SS'' else [upper_char c]) s)"

definition trim :: "string \<Rightarrow> string" where
  "trim s = rev (dropWhile is_space (rev (dropWhile is_space s)))"

definition startsWith :: "string \<Rightarrow> string \<Rightarrow> bool" where
  "startsWith s p = (take (length p) s = p)"

definition endsWith :: "string \<Rightarrow> string \<Rightarrow> bool" where
  "endsWith s p = (length p \<le> length s \<and> drop (length s - length p) s = p)"

fun includes_str :: "string \<Rightarrow> string \<Rightarrow> bool" where
  "includes_str [] p = (p = [])"
| "includes_str (x # xs) p = (startsWith (x # xs) p \<or> includes_str xs p)"

definition count_char :: "char \<Rightarrow> string \<Rightarrow> nat" where
  \<comment> \<open>\<open>(s.match(/c/g) || []).length\<close> for a single character \<open>c\<close>.\<close>
  "count_char c s = length (filter (\<lambda>x. x = c) s)"

fun digit_char :: "nat \<Rightarrow> char" where
  "digit_char n = ''0123456789'' ! (n mod 10)"

fun show_nat :: "nat \<Rightarrow> string" where
  \<comment> \<open>The decimal text of a non-negative integer, as a template literal renders a number
      (for integers below \<open>10^21\<close>; larger numbers are printed with an exponent).\<close>
  "show_nat n = (if n < 10 then [digit_char n] else show_nat (n div 10) @ [digit_char n])"

declare show_nat.simps [simp del]

section \<open>Regular expressions\<close>

text \<open>
  The expressions of \<open>validators.ts\<close> are sequences of literal characters, single members of
  a class, and greedy repetitions of a class (\<open>\s+\<close>, \<open>\s*\<close>, \<open>\d+\<close>). The flag \<open>i\<close> makes
  literals match case-insensitively.
\<close>

datatype cls = Space | Digit

datatype atom = Ch char | One cls | Many1 cls | Many0 cls

fun in_cls :: "cls \<Rightarrow> char \<Rightarrow> bool" where
  "in_cls Space c = is_space c"
| "in_cls Digit c = is_digit c"

definition canon :: "bool \<Rightarrow> char \<Rightarrow> char" where
  \<comment> \<open>The canonical form under which two characters are compared: the upper-case partner
      when the flag \<open>i\<close> is set.\<close>
  "canon ic c = (if ic then upper_char c else c)"

definition char_match :: "bool \<Rightarrow> char \<Rightarrow> char \<Rightarrow> bool" where
  "char_match ic c x = (canon ic x = canon ic c)"

text \<open>
  \<open>match_here\<close> matches a pattern at the start of the text and returns the matched text. A
  repetition takes as many characters as it can and never gives one back. For the
  patterns of the source that is what a backtracking matcher finds too, since a
  repetition is followed there by a literal outside its class, or by nothing
  (\<open>well_formed\<close> below).
\<close>

fun match_here :: "bool \<Rightarrow> atom list \<Rightarrow> string \<Rightarrow> string option" where
  "match_here ic [] s = Some []"
| "match_here ic (Ch c # as) [] = None"
| "match_here ic (Ch c # as) (x # xs) =
     (if char_match ic c x then map_option (Cons x) (match_here ic as xs) else None)"
| "match_here ic (One k # as) [] = None"
| "match_here ic (One k # as) (x # xs) =
     (if in_cls k x then map_option (Cons x) (match_here ic as xs) else None)"
| "match_here ic (Many1 k # as) s =
     (if takeWhile (in_cls k) s = [] then None
      else map_option (append (takeWhile (in_cls k) s)) (match_here ic as (dropWhile (in_cls k) s)))"
| "match_here ic (Many0 k # as) s =
     map_option (append (takeWhile (in_cls k) s)) (match_here ic as (dropWhile (in_cls k) s))"

fun search :: "bool \<Rightarrow> atom list \<Rightarrow> string \<Rightarrow> string option" where
  \<comment> \<open>\<open>s.match(re)?.[0]\<close>: the leftmost match.\<close>
  "search ic pat [] = match_here ic pat []"
| "search ic pat (x # xs) =
     (case match_here ic pat (x # xs) of Some m \<Rightarrow> Some m | None \<Rightarrow> search ic pat xs)"

definition test :: "bool \<Rightarrow> atom list \<Rightarrow> string \<Rightarrow> bool" where
  \<comment> \<open>\<open>re.test(s)\<close> for an expression without the anchor \<open>^\<close>.\<close>
  "test ic pat s = (search ic pat s \<noteq> None)"

definition test_anchored :: "bool \<Rightarrow> atom list \<Rightarrow> string \<Rightarrow> bool" where
  \<comment> \<open>\<open>re.test(s)\<close> for an expression that starts with the anchor \<open>^\<close>.\<close>
  "test_anchored ic pat s = (match_here ic pat s \<noteq> None)"

definition lit :: "string \<Rightarrow> atom list" where
  "lit s = map Ch s"

fun follows_outside :: "bool \<Rightarrow> cls \<Rightarrow> atom \<Rightarrow> bool" where
  \<comment> \<open>The atom after a repetition of the class \<open>k\<close> cannot start inside \<open>k\<close>.\<close>
  "follows_outside ic k (Ch c) = (\<not> in_cls k (canon ic c))"
| "follows_outside ic k (One k') = (k \<noteq> k')"
| "follows_outside ic k (Many1 k') = (k \<noteq> k')"
| "follows_outside ic k (Many0 k') = False"

fun well_formed :: "bool \<Rightarrow> atom list \<Rightarrow> bool" where
  "well_formed ic [] = True"
| "well_formed ic [a] = True"
| "well_formed ic (Many1 k # a # as) = (follows_outside ic k a \<and> well_formed ic (a # as))"
| "well_formed ic (Many0 k # a # as) = (follows_outside ic k a \<and> well_formed ic (a # as))"
| "well_formed ic (Ch c # a # as) = well_formed ic (a # as)"
| "well_formed ic (One k # a # as) = well_formed ic (a # as)"

text \<open>
  What it means for a text to match a pattern, independently of any matching strategy:
  a repetition may stand for any number of characters of its class.
\<close>

fun re_matches :: "bool \<Rightarrow> atom list \<Rightarrow> string \<Rightarrow> bool" where
  "re_matches ic [] s = (s = [])"
| "re_matches ic (Ch c # as) s =
     (case s of [] \<Rightarrow> False | x # xs \<Rightarrow> char_match ic c x \<and> re_matches ic as xs)"
| "re_matches ic (One k # as) s =
     (case s of [] \<Rightarrow> False | x # xs \<Rightarrow> in_cls k x \<and> re_matches ic as xs)"
| "re_matches ic (Many1 k # as) s =
     (\<exists>n \<in> {1..length s}. (\<forall>x \<in> set (take n s). in_cls k x) \<and> re_matches ic as (drop n s))"
| "re_matches ic (Many0 k # as) s =
     (\<exists>n \<in> {0..length s}. (\<forall>x \<in> set (take n s). in_cls k x) \<and> re_matches ic as (drop n s))"

definition contains_match :: "bool \<Rightarrow> atom list \<Rightarrow> string \<Rightarrow> bool" where
  \<comment> \<open>Some stretch of the text matches the pattern.\<close>
  "contains_match ic pat s =
     (\<exists>i \<in> {0..length s}. \<exists>n \<in> {0..length s - i}. re_matches ic pat (take n (drop i s)))"

section \<open>The SQL validator (\<open>src/utils/validators.ts\<close>)\<close>

datatype sql_error =
    DangerousOperation string
  | NotReadOnly
  | UnbalancedParens
  | MultipleStatements
  | CommentInjection
  | TooLong

fun sql_error_message :: "sql_error \<Rightarrow> string" where
  \<comment> \<open>The message of the \<open>Error\<close> that the source throws.\<close>
  "sql_error_message (DangerousOperation m) =
     ''SQL validation failed: Potentially dangerous operation detected ('' @ m @ '')''"
| "sql_error_message NotReadOnly = ''SQL validation failed: Query must start with SELECT''"
| "sql_error_message UnbalancedParens = ''SQL validation failed: Unbalanced parentheses''"
| "sql_error_message MultipleStatements = ''SQL validation failed: Multiple statements detected''"
| "sql_error_message CommentInjection = ''SQL validation failed: Comments are not allowed''"
| "sql_error_message TooLong = ''SQL validation failed: Query too long''"

definition dangerousPatterns :: "atom list list" where
  "dangerousPatterns =
    [ lit ''DROP'' @ [Many1 Space],
      lit ''DELETE'' @ [Many1 Space],
      lit ''TRUNCATE'' @ [Many1 Space],
      lit ''INSERT'' @ [Many1 Space],
      lit ''UPDATE'' @ [Many1 Space],
      lit ''ALTER'' @ [Many1 Space],
      lit ''CREATE'' @ [Many1 Space],
      lit ''GRANT'' @ [Many1 Space],
      lit ''REVOKE'' @ [Many1 Space],
      lit ''RENAME'' @ [Many1 Space],
      lit ''LOAD'' @ [Many1 Space] @ lit ''DATA'',
      lit ''INTO'' @ [Many1 Space] @ lit ''OUTFILE'',
      lit ''INFORMATION_SCHEMA'',
      lit ''SLEEP'' @ [Many0 Space] @ lit ''('',
      lit ''BENCHMARK'' @ [Many0 Space] @ lit ''('',
      lit ''SHUTDOWN'' ]"

fun first_dangerous :: "atom list list \<Rightarrow> string \<Rightarrow> string option" where
  \<comment> \<open>The loop over the patterns: the match of the first pattern that matches.\<close>
  "first_dangerous [] sql = None"
| "first_dangerous (p # ps) sql =
     (case search True p sql of Some m \<Rightarrow> Some m | None \<Rightarrow> first_dangerous ps sql)"

definition validateSqlQuery :: "string \<Rightarrow> sql_error + bool" where
  "validateSqlQuery sql =
     (case first_dangerous dangerousPatterns sql of
        Some m \<Rightarrow> Inl (DangerousOperation m)
      | None \<Rightarrow>
          if \<not> startsWith (toUpperCase (trim sql)) ''SELECT'' then Inl NotReadOnly
          else if count_char CHR ''('' sql \<noteq> count_char CHR '')'' sql then Inl UnbalancedParens
          else if includes_str sql '';'' \<and> \<not> endsWith (trim sql) '';'' then Inl MultipleStatements
          else if includes_str sql ''--'' \<or> includes_str sql ''/*'' then Inl CommentInjection
          else if length sql > 2000 then Inl TooLong
          else Inr True)"

definition limit_pattern :: "atom list" where
  \<comment> \<open>\<open>/LIMIT\s+\d+/i\<close>\<close>
  "limit_pattern = lit ''LIMIT'' @ [Many1 Space, Many1 Digit]"

definition ensureQueryLimit :: "string \<Rightarrow> nat \<Rightarrow> string" where
  \<comment> \<open>\<open>limit\<close> is a row count; the source's default is 100.\<close>
  "ensureQueryLimit sql limit =
     (if test True limit_pattern sql then sql
      else let trimmedSql = trim sql in
        if endsWith trimmedSql '';''
        then butlast trimmedSql @ '' LIMIT '' @ show_nat limit @ '';''
        else trimmedSql @ '' LIMIT '' @ show_nat limit)"

text \<open>
  The two conditions of the validator in the words of its specification: the trimmed
  text begins with SELECT in any letter case, and no stretch of the text matches a
  pattern of the denylist.
\<close>

definition begins_with_select :: "string \<Rightarrow> bool" where
  "begins_with_select sql = (map upper_char (take 6 (trim sql)) = ''SELECT'')"

definition no_dangerous :: "string \<Rightarrow> bool" where
  "no_dangerous sql = (\<forall>p \<in> set dangerousPatterns. \<not> contains_match True p sql)"


section \<open>Values of the source language\<close>

text \<open>
  Result rows, request bodies and responses of the remote executor are JSON-like values.
  An object is the list of its own enumerable properties in enumeration order (keys are
  distinct in a real object). A \<open>Date\<close> object carries its time value, the milliseconds
  since 1970-01-01T00:00:00Z, or nothing when the date is invalid (\<open>NaN\<close>). Numbers are
  modelled by integers: nothing below depends on a number beyond its being zero or not.
\<close>

datatype jsvalue =
    JUndefined
  | JNull
  | JBool bool
  | JNum int
  | JStr string
  | JDate "int option"
  | JArr "jsvalue list"
  | JObj "(string \<times> jsvalue) list"

fun truthy :: "jsvalue \<Rightarrow> bool" where
  "truthy JUndefined = False"
| "truthy JNull = False"
| "truthy (JBool b) = b"
| "truthy (JNum n) = (n \<noteq> 0)"
| "truthy (JStr s) = (s \<noteq> [])"
| "truthy (JDate t) = True"
| "truthy (JArr vs) = True"
| "truthy (JObj kvs) = True"

fun get_prop :: "jsvalue \<Rightarrow> string \<Rightarrow> jsvalue" where
  \<comment> \<open>\<open>v.key\<close> for the keys \<open>message\<close> and \<open>results\<close> that the sources read from a truthy
      value: only a plain object can hold them.\<close>
  "get_prop (JObj kvs) k = (case map_of kvs k of Some v \<Rightarrow> v | None \<Rightarrow> JUndefined)"
| "get_prop v k = JUndefined"

fun typeof :: "jsvalue \<Rightarrow> string" where
  "typeof JUndefined = ''undefined''"
| "typeof JNull = ''object''"
| "typeof (JBool b) = ''boolean''"
| "typeof (JNum n) = ''number''"
| "typeof (JStr s) = ''string''"
| "typeof (JDate t) = ''object''"
| "typeof (JArr vs) = ''object''"
| "typeof (JObj kvs) = ''object''"

fun spread :: "jsvalue \<Rightarrow> (string \<times> jsvalue) list" where
  \<comment> \<open>The properties that \<open>{ ...v }\<close> copies: those of an object, the indexed elements of
      an array or of a string, and none of any other value.\<close>
  "spread (JObj kvs) = kvs"
| "spread (JArr vs) = zip (map show_nat [0..<length vs]) vs"
| "spread (JStr s) = zip (map show_nat [0..<length s]) (map (\<lambda>c. JStr [c]) s)"
| "spread v = []"

section \<open>Dates (the \<open>Date\<close> object of the language)\<close>

text \<open>
  Time values follow the language standard: days are counted from 1970-01-01, years are
  those of the proleptic Gregorian calendar, and all fields are read in UTC.
\<close>

definition msPerDay :: int where
  "msPerDay = 86400000"

definition Day :: "int \<Rightarrow> int" where
  "Day t = t div msPerDay"

definition TimeWithinDay :: "int \<Rightarrow> int" where
  "TimeWithinDay t = t mod msPerDay"

definition InLeapYear :: "int \<Rightarrow> bool" where
  "InLeapYear y = (y mod 4 = 0 \<and> (y mod 100 \<noteq> 0 \<or> y mod 400 = 0))"


definition DayFromYear :: "int \<Rightarrow> int" where
  "DayFromYear y =
     365 * (y - 1970) + (y - 1969) div 4 - (y - 1901) div 100 + (y - 1601) div 400"

definition YearFromDay :: "int \<Rightarrow> int" where
  \<comment> \<open>The year \<open>y\<close> with \<open>DayFromYear y \<le> d < DayFromYear (y + 1)\<close>: an estimate from the
      mean length of a year, which is off by one year at most, and its correction.\<close>
  "YearFromDay d =
     (let y = 1970 + (400 * d) div 146097 in
      if d < DayFromYear y then y - 1
      else if DayFromYear (y + 1) \<le> d then y + 1
      else y)"

definition YearFromTime :: "int \<Rightarrow> int" where
  "YearFromTime t = YearFromDay (Day t)"

definition DayWithinYear :: "int \<Rightarrow> int" where
  "DayWithinYear t = Day t - DayFromYear (YearFromTime t)"

definition month_start :: "int \<Rightarrow> bool \<Rightarrow> int" where
  \<comment> \<open>The number of the first day of month \<open>m\<close> (0 to 11; 12 stands for the end of the
      year) within its year.\<close>
  "month_start m leap =
     (if m \<le> 0 then 0 else if m = 1 then 31
      else [59, 90, 120, 151, 181, 212, 243, 273, 304, 334, 365] ! nat (min m 12 - 2)
           + (if leap then 1 else 0))"

definition MonthFromTime :: "int \<Rightarrow> int" where
  "MonthFromTime t =
     (let d = DayWithinYear t; leap = InLeapYear (YearFromTime t) in
      int (length (filter (\<lambda>m. month_start m leap \<le> d) [1, 2, 3, 4, 5, 6, 7, 8, 9, 10, 11])))"

definition DateFromTime :: "int \<Rightarrow> int" where
  "DateFromTime t =
     DayWithinYear t - month_start (MonthFromTime t) (InLeapYear (YearFromTime t)) + 1"

definition HourFromTime :: "int \<Rightarrow> int" where
  "HourFromTime t = TimeWithinDay t div 3600000"

definition MinFromTime :: "int \<Rightarrow> int" where
  "MinFromTime t = (TimeWithinDay t div 60000) mod 60"

definition SecFromTime :: "int \<Rightarrow> int" where
  "SecFromTime t = (TimeWithinDay t div 1000) mod 60"

definition msFromTime :: "int \<Rightarrow> int" where
  "msFromTime t = TimeWithinDay t mod 1000"

definition MakeTime :: "int \<Rightarrow> int \<Rightarrow> int \<Rightarrow> int \<Rightarrow> int" where
  "MakeTime h m s ms = h * 3600000 + m * 60000 + s * 1000 + ms"

definition MakeDay :: "int \<Rightarrow> int \<Rightarrow> int \<Rightarrow> int" where
  "MakeDay year month date =
     (let ym = year + month div 12; mn = month mod 12 in
      DayFromYear ym + month_start mn (InLeapYear ym) + date - 1)"

definition MakeDate :: "int \<Rightarrow> int \<Rightarrow> int" where
  "MakeDate day time = day * msPerDay + time"

definition DaysInMonth :: "int \<Rightarrow> int \<Rightarrow> int" where
  \<comment> \<open>\<open>month\<close> counts from 1 here, as in the text of a date.\<close>
  "DaysInMonth year month =
     month_start month (InLeapYear year) - month_start (month - 1) (InLeapYear year)"

fun digits :: "nat \<Rightarrow> nat \<Rightarrow> string" where
  \<comment> \<open>The last \<open>k\<close> decimal digits of \<open>n\<close>: the text of \<open>n\<close> padded with zeros to width \<open>k\<close>
      when \<open>n < 10 ^ k\<close>.\<close>
  "digits 0 n = []"
| "digits (Suc k) n = digits k (n div 10) @ [digit_char n]"

definition digit_val :: "char \<Rightarrow> nat" where
  "digit_val c = (of_char c :: nat) - 48"

definition num_of :: "string \<Rightarrow> nat" where
  \<comment> \<open>The number that a text of decimal digits denotes.\<close>
  "num_of ds = foldl (\<lambda>a c. 10 * a + digit_val c) 0 ds"

definition toISOString :: "int \<Rightarrow> string" where
  \<comment> \<open>\<open>Date.prototype.toISOString\<close> of a valid date: four digits for the years 0 to 9999, a
      sign and six digits for the others.\<close>
  "toISOString t =
     (let y = YearFromTime t in
      (if 0 \<le> y \<and> y \<le> 9999 then digits 4 (nat y)
       else (if y < 0 then ''-'' else ''+'') @ digits 6 (nat \<bar>y\<bar>))
      @ ''-'' @ digits 2 (nat (MonthFromTime t + 1))
      @ ''-'' @ digits 2 (nat (DateFromTime t))
      @ ''T'' @ digits 2 (nat (HourFromTime t))
      @ '':'' @ digits 2 (nat (MinFromTime t))
      @ '':'' @ digits 2 (nat (SecFromTime t))
      @ ''.'' @ digits 3 (nat (msFromTime t))
      @ ''Z'')"

definition timestamp_pattern :: "atom list" where
  \<comment> \<open>\<open>/^\d{4}-\d{2}-\d{2}T\d{2}:\d{2}:\d{2}/\<close>, the anchor aside\<close>
  "timestamp_pattern =
     replicate 4 (One Digit) @ lit ''-'' @ replicate 2 (One Digit) @ lit ''-'' @
     replicate 2 (One Digit) @ lit ''T'' @ replicate 2 (One Digit) @ lit '':'' @
     replicate 2 (One Digit) @ lit '':'' @ replicate 2 (One Digit)"

definition utc_suffix :: "string \<Rightarrow> nat option" where
  \<comment> \<open>What may follow the seconds in a UTC date-time text: \<open>Z\<close>, or a point, three digits of
      milliseconds and \<open>Z\<close>. The result is the number of milliseconds.\<close>
  "utc_suffix r =
     (if r = ''Z'' then Some 0
      else if length r = 5 \<and> hd r = CHR ''.'' \<and> list_all is_digit (take 3 (tl r)) \<and> last r = CHR ''Z''
      then Some (num_of (take 3 (tl r)))
      else None)"

definition legal_fields :: "nat \<Rightarrow> nat \<Rightarrow> nat \<Rightarrow> nat \<Rightarrow> nat \<Rightarrow> nat \<Rightarrow> nat \<Rightarrow> bool" where
  \<comment> \<open>Hour 24 is legal for the end of a day only.\<close>
  "legal_fields y mo d h mi s ms =
     (1 \<le> mo \<and> mo \<le> 12 \<and> 1 \<le> d \<and> int d \<le> DaysInMonth (int y) (int mo) \<and>
      mi \<le> 59 \<and> s \<le> 59 \<and> (h \<le> 23 \<or> (h = 24 \<and> mi = 0 \<and> s = 0 \<and> ms = 0)))"

definition date_parse :: "(string \<Rightarrow> int option) \<Rightarrow> string \<Rightarrow> int option" where
  \<comment> \<open>\<open>new Date(s).getTime()\<close>, with \<open>None\<close> for \<open>NaN\<close>. The standard fixes the value of a text
      in the date-time format with legal fields and the zone \<open>Z\<close>. Every other text is
      left to \<open>host\<close>: a text without a zone is read in the local time zone of the
      process, and what becomes of a text outside the format is up to the engine.\<close>
  "date_parse host s =
     (if test_anchored False timestamp_pattern s then
        (let y = num_of (take 4 s); mo = num_of (take 2 (drop 5 s));
             d = num_of (take 2 (drop 8 s)); h = num_of (take 2 (drop 11 s));
             mi = num_of (take 2 (drop 14 s)); sec = num_of (take 2 (drop 17 s))
         in case utc_suffix (drop 19 s) of
              Some ms \<Rightarrow>
                if legal_fields y mo d h mi sec ms
                then Some (MakeDate (MakeDay (int y) (int mo - 1) (int d))
                                    (MakeTime (int h) (int mi) (int sec) (int ms)))
                else host s
            | None \<Rightarrow> host s)
      else host s)"

section \<open>Formatting of result rows (\<open>src/utils/validators.ts\<close>)\<close>

fun replace_first :: "char \<Rightarrow> char \<Rightarrow> string \<Rightarrow> string" where
  \<comment> \<open>\<open>s.replace(a, b)\<close> for single characters: the first \<open>a\<close> becomes \<open>b\<close>.\<close>
  "replace_first a b [] = []"
| "replace_first a b (x # xs) = (if x = a then b # xs else x # replace_first a b xs)"

definition formatDate :: "int option \<Rightarrow> string" where
  \<comment> \<open>The argument is a \<open>Date\<close> object at both calls of the source.\<close>
  "formatDate date =
     (case date of
        None \<Rightarrow> ''Invalid Date''
      | Some t \<Rightarrow> take 19 (replace_first CHR ''T'' CHR '' '' (toISOString t)))"

definition timestamp_shaped :: "string \<Rightarrow> bool" where
  "timestamp_shaped s = test_anchored False timestamp_pattern s"

fun formatValue :: "(string \<Rightarrow> int option) \<Rightarrow> jsvalue \<Rightarrow> jsvalue" where
  \<comment> \<open>The body of the loop over the entries of a row.\<close>
  "formatValue host (JDate t) = JStr (formatDate t)"
| "formatValue host (JStr s) =
     (if timestamp_shaped s then JStr (formatDate (date_parse host s)) else JStr s)"
| "formatValue host v = v"

definition formatRow :: "(string \<Rightarrow> int option) \<Rightarrow> jsvalue \<Rightarrow> jsvalue" where
  "formatRow host row = JObj (map (\<lambda>(key, v). (key, formatValue host v)) (spread row))"

definition formatTimestamps :: "(string \<Rightarrow> int option) \<Rightarrow> jsvalue \<Rightarrow> jsvalue" where
  "formatTimestamps host results =
     (case results of JArr rows \<Rightarrow> JArr (map (formatRow host) rows) | _ \<Rightarrow> results)"




definition rewritable :: "jsvalue \<Rightarrow> bool" where
  \<comment> \<open>A \<open>Date\<close> object, or a string that starts with the shape \<open>dddd-dd-ddTdd:dd:dd\<close>.\<close>
  "rewritable v =
     (case v of
        JDate t \<Rightarrow> True
      | JStr s \<Rightarrow> re_matches False timestamp_pattern (take 19 s)
      | _ \<Rightarrow> False)"

text \<open>A pattern without repetitions matches texts of one length only.\<close>

fun fixed_width :: "atom list \<Rightarrow> bool" where
  "fixed_width [] = True"
| "fixed_width (Ch c # as) = fixed_width as"
| "fixed_width (One k # as) = fixed_width as"
| "fixed_width (a # as) = False"

section \<open>The schema service (\<open>src/services/schema.service.ts\<close>)\<close>

record ColumnMetadata =
  col_name :: string
  dataType :: string
  isNullable :: bool
  isPrimaryKey :: bool
  isForeignKey :: bool
  defaultValue :: "string option"

record Relationship =
  columnName :: string
  referencedTable :: string
  referencedColumn :: string

record TableMetadata =
  tbl_name :: string
  columns :: "ColumnMetadata list"
  primaryKey :: "string option"
  relationships :: "Relationship list"

record DatabaseSchema =
  tables :: "TableMetadata list"

text \<open>
  The rows that the three queries on \<open>information_schema\<close> return, and the database as
  the service sees it: each query yields its rows or fails with a message.
\<close>

record column_row =
  COLUMN_NAME :: string
  DATA_TYPE :: string
  IS_NULLABLE :: string
  COLUMN_KEY :: string
  COLUMN_DEFAULT :: "string option"

record key_row =
  KEY_COLUMN_NAME :: string
  REFERENCED_TABLE_NAME :: string
  REFERENCED_COLUMN_NAME :: string

record database =
  query_tables :: "string + string list"
  query_columns :: "string \<Rightarrow> string + column_row list"
  query_keys :: "string \<Rightarrow> string + key_row list"

datatype db_query = QueryTables | QueryColumns string | QueryKeys string

record SchemaService =
  schema :: "DatabaseSchema option"
  lastRefreshTime :: int
  refreshIntervalMs :: int

definition new_SchemaService :: SchemaService where
  \<comment> \<open>The state of the singleton when the module is loaded.\<close>
  "new_SchemaService = \<lparr> schema = None, lastRefreshTime = 0, refreshIntervalMs = 3600000 \<rparr>"

definition getTables :: "database \<Rightarrow> (string + string list) \<times> db_query list" where
  "getTables db = (query_tables db, [QueryTables])"

definition getColumns :: "database \<Rightarrow> string \<Rightarrow> (string + ColumnMetadata list) \<times> db_query list" where
  "getColumns db tableName =
     (case query_columns db tableName of
        Inl e \<Rightarrow> Inl e
      | Inr rows \<Rightarrow> Inr (map (\<lambda>col.
          \<lparr> col_name = COLUMN_NAME col, dataType = DATA_TYPE col,
            isNullable = (IS_NULLABLE col = ''YES''),
            isPrimaryKey = (COLUMN_KEY col = ''PRI''),
            isForeignKey = (COLUMN_KEY col = ''MUL''),
            defaultValue = COLUMN_DEFAULT col \<rparr>) rows),
      [QueryColumns tableName])"

definition getRelationships :: "database \<Rightarrow> string \<Rightarrow> (string + Relationship list) \<times> db_query list" where
  "getRelationships db tableName =
     (case query_keys db tableName of
        Inl e \<Rightarrow> Inl e
      | Inr rows \<Rightarrow> Inr (map (\<lambda>rel.
          \<lparr> columnName = KEY_COLUMN_NAME rel,
            referencedTable = REFERENCED_TABLE_NAME rel,
            referencedColumn = REFERENCED_COLUMN_NAME rel \<rparr>) rows),
      [QueryKeys tableName])"

fun discover :: "database \<Rightarrow> string list \<Rightarrow> TableMetadata list \<Rightarrow>
    (string + TableMetadata list) \<times> db_query list" where
  \<comment> \<open>The loop over the table names, with the tables collected so far; the first query
      that fails ends it.\<close>
  "discover db [] acc = (Inr acc, [])"
| "discover db (tableName # rest) acc =
     (case getColumns db tableName of
        (Inl e, q1) \<Rightarrow> (Inl e, q1)
      | (Inr cols, q1) \<Rightarrow>
          (case getRelationships db tableName of
             (Inl e, q2) \<Rightarrow> (Inl e, q1 @ q2)
           | (Inr rels, q2) \<Rightarrow>
               (let primaryKeyColumn = find isPrimaryKey cols;
                    t = \<lparr> tbl_name = tableName, columns = cols,
                          primaryKey = map_option col_name primaryKeyColumn,
                          relationships = rels \<rparr>;
                    (r, q3) = discover db rest (acc @ [t])
                in (r, q1 @ q2 @ q3))))"

definition refreshSchema ::
  "database \<Rightarrow> int \<Rightarrow> SchemaService \<Rightarrow> (string + unit) \<times> SchemaService \<times> db_query list" where
  \<comment> \<open>\<open>now\<close> is what \<open>Date.now()\<close> returns when the discovery is complete. The result is the
      message of the error thrown, or nothing; then the state of the service, and the
      queries sent to the database.\<close>
  "refreshSchema db now svc =
     (case getTables db of
        (Inl e, q0) \<Rightarrow> (Inl ''Schema discovery failed'', svc, q0)
      | (Inr names, q0) \<Rightarrow>
          (case discover db names [] of
             (Inl e, q) \<Rightarrow> (Inl ''Schema discovery failed'', svc, q0 @ q)
           | (Inr ts, q) \<Rightarrow>
               (Inr (), svc\<lparr> schema := Some \<lparr> tables = ts \<rparr>, lastRefreshTime := now \<rparr>, q0 @ q)))"

definition needs_refresh :: "SchemaService \<Rightarrow> bool \<Rightarrow> int \<Rightarrow> bool" where
  \<comment> \<open>The condition of \<open>getSchema\<close>.\<close>
  "needs_refresh svc forceRefresh currentTime =
     (schema svc = None \<or> forceRefresh \<or> currentTime - lastRefreshTime svc > refreshIntervalMs svc)"

definition getSchema ::
  "database \<Rightarrow> bool \<Rightarrow> int \<Rightarrow> int \<Rightarrow> SchemaService \<Rightarrow>
     (string + DatabaseSchema option) \<times> SchemaService \<times> db_query list" where
  \<comment> \<open>\<open>currentTime\<close> is the first reading of the clock and \<open>now\<close> the one of a refresh. The
      value returned is the field \<open>schema\<close>, which the source casts to a schema.\<close>
  "getSchema db forceRefresh currentTime now svc =
     (if needs_refresh svc forceRefresh currentTime then
        (case refreshSchema db now svc of
           (Inl e, svc', q) \<Rightarrow> (Inl e, svc', q)
         | (Inr u, svc', q) \<Rightarrow> (Inr (schema svc'), svc', q))
      else (Inr (schema svc), svc, []))"

text \<open>
  A step of a refresh fails: the listing of the tables, or the columns or the
  relationships of a listed table.
\<close>

definition step_fails :: "database \<Rightarrow> bool" where
  "step_fails db =
     (case query_tables db of
        Inl e \<Rightarrow> True
      | Inr names \<Rightarrow> \<exists>t \<in> set names. isl (query_columns db t) \<or> isl (query_keys db t))"

text \<open>A database and a state of the service with a snapshot, for the examples.\<close>

definition example_db :: "bool \<Rightarrow> database" where
  \<comment> \<open>Two tables; the columns of \<open>orders\<close> cannot be read when \<open>broken\<close> is set.\<close>
  "example_db broken =
     \<lparr> query_tables = Inr [''users'', ''orders''],
       query_columns = (\<lambda>t. if broken \<and> t = ''orders'' then Inl ''ER_LOCK_WAIT_TIMEOUT''
          else Inr [\<lparr> COLUMN_NAME = ''id'', DATA_TYPE = ''int'', IS_NULLABLE = ''NO'',
                      COLUMN_KEY = ''PRI'', COLUMN_DEFAULT = None \<rparr>]),
       query_keys = (\<lambda>t. Inr []) \<rparr>"

definition example_service :: SchemaService where
  "example_service =
     \<lparr> schema = Some \<lparr> tables = [] \<rparr>, lastRefreshTime = 1000, refreshIntervalMs = 3600000 \<rparr>"

section \<open>Application errors (\<open>src/middleware/error.middleware.ts\<close>)\<close>

definition ERROR_CODES :: "(string \<times> nat) list" where
  "ERROR_CODES =
     [(''VALIDATION_ERROR'', 400), (''AUTHENTICATION_ERROR'', 401), (''AUTHORIZATION_ERROR'', 403),
      (''NOT_FOUND'', 404), (''CONFLICT'', 409), (''RATE_LIMIT'', 429), (''INTERNAL_ERROR'', 500),
      (''DATABASE_ERROR'', 503), (''SERVICE_UNAVAILABLE'', 503), (''TIMEOUT'', 504)]"

record AppError =
  app_message :: string
  errorCode :: string
  statusCode :: nat

definition new_AppError :: "string \<Rightarrow> string \<Rightarrow> AppError" where
  "new_AppError msg code =
     \<lparr> app_message = msg, errorCode = code,
       statusCode = (case map_of ERROR_CODES code of Some n \<Rightarrow> n | None \<Rightarrow> 500) \<rparr>"

section \<open>The remote executor (\<open>services/n8n.service.ts\<close>)\<close>

record QueryExecutionResponse =
  results :: "jsvalue list"
  rowCount :: nat
  executionTime :: int
  asynchronous :: bool

text \<open>
  \<open>executionTime\<close> is kept in milliseconds; the source divides them by 1000. The flag
  \<open>asynchronous\<close> is absent from a synchronous result in the source, which reads as false.

  The outcome of the HTTP call is a response with its payload, a failure with an Axios
  error, or another thrown value, with its message when it is an \<open>Error\<close>.
\<close>

record axios_error =
  ax_code :: "string option"
  ax_response :: "(nat \<times> jsvalue) option"
  ax_message :: string

datatype http_outcome =
    Responded jsvalue
  | AxiosFailed axios_error
  | OtherFailure "string option"

record n8n_env =
  webhookUrl :: string
  http :: http_outcome
  elapsed :: int
  stringify :: "jsvalue \<Rightarrow> string"
  fs_ok :: bool
  save_time :: int

definition file_timestamp :: "int \<Rightarrow> string" where
  \<comment> \<open>\<open>new Date().toISOString().replace(/[:.]/g, '-')\<close>\<close>
  "file_timestamp t = map (\<lambda>c. if c = CHR '':'' \<or> c = CHR ''.'' then CHR ''-'' else c) (toISOString t)"

definition saveResultsAsJson ::
  "n8n_env \<Rightarrow> jsvalue \<Rightarrow> string list \<Rightarrow> string option \<times> string list" where
  \<comment> \<open>The argument is \<open>requestId\<close>; the list holds the names of the files written. The
      name of the new file is returned, or nothing when the call throws: a request
      identifier that is truthy and no string has no method \<open>substring\<close>, and the
      directory or the file may fail to be written.\<close>
  "saveResultsAsJson n requestId files =
     (if truthy requestId \<and> typeof requestId \<noteq> ''string'' then (None, files)
      else
        let idPart = (case requestId of JStr r \<Rightarrow> if r = [] then [] else ''_'' @ take 8 r | _ \<Rightarrow> []);
            filename = ''query_'' @ file_timestamp (save_time n) @ idPart @ ''.json''
        in if fs_ok n then (Some filename, files @ [filename]) else (None, files))"

definition quoted :: "string \<Rightarrow> string" where
  "quoted s = [CHR 0x27] @ s @ [CHR 0x27]"

definition execute_request :: "n8n_env \<Rightarrow> string \<Rightarrow> string list \<Rightarrow>
    (string option + QueryExecutionResponse) \<times> string list" where
  \<comment> \<open>The body of the outer \<open>try\<close> of \<open>executeQuery\<close>: the message of the error thrown (nothing
      when the thrown value is no \<open>Error\<close>), or the result.\<close>
  "execute_request n query files =
     (if webhookUrl n = [] \<or> trim (webhookUrl n) = [] then
        (Inl (Some ''n8n webhook URL is missing or empty. Please check your .env configuration.''), files)
      else case http n of
        AxiosFailed ax \<Rightarrow>
          (Inl (Some (
             if ax_code ax = Some ''ECONNREFUSED''
             then ''Could not connect to n8n at '' @ webhookUrl n @ ''. Make sure n8n is running.''
             else if ax_code ax = Some ''ETIMEDOUT'' \<or> ax_code ax = Some ''ECONNABORTED''
             then ''Connection to n8n timed out. The server at '' @ webhookUrl n @ '' is not responding.''
             else case ax_response ax of
                    Some (status, d) \<Rightarrow>
                      ''n8n returned error status '' @ show_nat status @ '': '' @ stringify n d
                  | None \<Rightarrow> ''Failed to communicate with n8n: '' @ ax_message ax)), files)
      | OtherFailure m \<Rightarrow> (Inl m, files)
      | Responded d \<Rightarrow>
          if \<not> truthy d then (Inl (Some ''n8n returned an empty response''), files)
          else if get_prop d ''message'' = JStr ''Workflow was started'' then
            (Inr \<lparr> results = [], rowCount = 0, executionTime = elapsed n, asynchronous = True \<rparr>, files)
          else if \<not> truthy (get_prop d ''results'') then
            (Inl (Some (''n8n response is missing the '' @ quoted ''results'' @ '' field: '' @ stringify n d)),
             files)
          else case get_prop d ''results'' of
            JArr rs \<Rightarrow>
              (Inr \<lparr> results = rs, rowCount = length rs, executionTime = elapsed n,
                     asynchronous = False \<rparr>,
               snd (saveResultsAsJson n (JArr rs) files))
          | v \<Rightarrow>
              (Inl (Some (''n8n '' @ quoted ''results'' @ '' field is not an array: '' @ typeof v)), files))"

definition executeQuery :: "n8n_env \<Rightarrow> string \<Rightarrow> string list \<Rightarrow>
    (string + QueryExecutionResponse) \<times> string list" where
  \<comment> \<open>The outer \<open>catch\<close> wraps every error.\<close>
  "executeQuery n query files =
     (case execute_request n query files of
        (Inl m, files') \<Rightarrow>
          (Inl (''Failed to execute query via n8n'' @ (case m of Some msg \<Rightarrow> '': '' @ msg | None \<Rightarrow> [])),
           files')
      | (Inr r, files') \<Rightarrow> (Inr r, files'))"

section \<open>The audit log (\<open>services/database.service.ts\<close>)\<close>

datatype response_status = Success | Error | Async

record AuditLogEntry =
  queryText :: string
  userInput :: string
  entry_executionTime :: "int option"
  entry_rowCount :: "nat option"
  responseStatus :: response_status
  errorMessage :: "string option"

record audit_row =
  query_text :: string
  user_input :: string
  execution_time :: "int option"
  row_count :: "nat option"
  response_status :: response_status
  error_message :: "string option"

definition audit_row_of :: "AuditLogEntry \<Rightarrow> audit_row" where
  \<comment> \<open>The parameters of the \<open>INSERT\<close>: \<open>x || null\<close> turns an absent field, a zero and an
      empty text into \<open>NULL\<close>.\<close>
  "audit_row_of e =
     \<lparr> query_text = queryText e, user_input = userInput e,
       execution_time = (case entry_executionTime e of Some t \<Rightarrow> if t = 0 then None else Some t | None \<Rightarrow> None),
       row_count = (case entry_rowCount e of Some c \<Rightarrow> if c = 0 then None else Some c | None \<Rightarrow> None),
       response_status = responseStatus e,
       error_message = (case errorMessage e of Some m \<Rightarrow> if m = [] then None else Some m | None \<Rightarrow> None) \<rparr>"

definition logQuery :: "bool \<Rightarrow> AuditLogEntry \<Rightarrow> audit_row list \<Rightarrow> audit_row list" where
  \<comment> \<open>\<open>insert_ok\<close> tells whether the \<open>INSERT\<close> succeeds; a failure is logged and swallowed.\<close>
  "logQuery insert_ok e logs = (if insert_ok then logs @ [audit_row_of e] else logs)"

section \<open>The chat controller (\<open>src/controllers/chat.controller.ts\<close>)\<close>

definition validateChatMessage :: "jsvalue \<Rightarrow> string + bool" where
  \<comment> \<open>From \<open>validators.ts\<close>: the message of the error thrown, or \<open>true\<close>.\<close>
  "validateChatMessage message =
     (case message of
        JStr s \<Rightarrow>
          if s = [] then Inl ''Message is required and must be a string''
          else if length (trim s) = 0 then Inl ''Message cannot be empty''
          else if length s > 1000 then Inl ''Message is too long (maximum 1000 characters)''
          else Inr True
      | _ \<Rightarrow> Inl ''Message is required and must be a string'')"

record ChatRequest =
  req_message :: jsvalue
  req_conversationId :: "string option"
  x_request_id :: "string option"

record ChatResponse =
  resp_message :: string
  resp_sql :: string
  resp_data :: "jsvalue list"
  conversationId :: string
  filename :: "string option"
  resp_asynchronous :: "bool option"

datatype reply = Reply nat ChatResponse

text \<open>
  What the collaborators of one request do: the identifier that \<open>uuidv4\<close> mints, the
  outcome of the schema lookup, of the SQL generation and of the summarization (the
  message of the error thrown, or the value), the remote executor, whether the insert
  into the audit table succeeds, the clock when the reply is built, and the engine's
  reading of date texts.
\<close>

record chat_env =
  uuid :: string
  schema_outcome :: "string + DatabaseSchema"
  sql_outcome :: "string + string"
  n8n :: n8n_env
  answer_outcome :: "string + string"
  audit_insert_ok :: bool
  reply_time :: int
  host_parse :: "string \<Rightarrow> int option"

record world =
  audit_logs :: "audit_row list"
  files :: "string list"

datatype call =
    GetSchema
  | GenerateSql
  | ExecuteQuery string
  | GenerateResponse
  | LogQuery AuditLogEntry
  | SaveResults

definition classify :: "string \<Rightarrow> string \<times> string" where
  \<comment> \<open>The user-facing message and the error code that the \<open>catch\<close> block picks.\<close>
  "classify errMsg =
     (if includes_str errMsg ''OpenAI''
      then (''Error connecting to AI service. Please try again later.'', ''SERVICE_UNAVAILABLE'')
      else if includes_str errMsg ''n8n'' \<or> includes_str errMsg ''query''
      then (''Error executing database query. The database service may be unavailable.'',
            ''DATABASE_ERROR'')
      else if includes_str errMsg ''timeout'' \<or> includes_str errMsg ''timed out''
      then (''The request took too long to process. Please try a simpler query.'', ''TIMEOUT'')
      else (''Failed to process your request'', ''INTERNAL_ERROR''))"

definition pipeline :: "chat_env \<Rightarrow> ChatRequest \<Rightarrow> string \<Rightarrow> string \<Rightarrow> world \<Rightarrow>
    (string + reply) \<times> world \<times> call list" where
  \<comment> \<open>The \<open>try\<close> block of \<open>processChat\<close> for the message text \<open>message\<close>: the message of the
      error thrown, or the reply sent; the world after it, and the calls made.\<close>
  "pipeline env req message convId w =
     (case schema_outcome env of
        Inl e \<Rightarrow> (Inl e, w, [GetSchema])
      | Inr databaseSchema \<Rightarrow>
     (case sql_outcome env of
        Inl e \<Rightarrow> (Inl e, w, [GetSchema, GenerateSql])
      | Inr generated \<Rightarrow>
     (case validateSqlQuery generated of
        Inl err \<Rightarrow> (Inl (''SQL generation failed: '' @ sql_error_message err), w, [GetSchema, GenerateSql])
      | Inr ok \<Rightarrow>
     (let sql = ensureQueryLimit generated 100 in
      case executeQuery (n8n env) sql (files w) of
        (Inl e, fs) \<Rightarrow> (Inl e, w\<lparr> files := fs \<rparr>, [GetSchema, GenerateSql, ExecuteQuery sql])
      | (Inr queryExecution, fs) \<Rightarrow>
          if asynchronous queryExecution then
            (let auditLogEntry =
                   \<lparr> queryText = sql, userInput = message, entry_executionTime = None,
                     entry_rowCount = None, responseStatus = Async, errorMessage = None \<rparr>
             in (Inr (Reply 202
                   \<lparr> resp_message = ''Your query is being processed. Results will be available soon.'',
                     resp_sql = sql, resp_data = [], conversationId = convId, filename = None,
                     resp_asynchronous = Some True \<rparr>),
                 w\<lparr> files := fs,
                    audit_logs := logQuery (audit_insert_ok env) auditLogEntry (audit_logs w) \<rparr>,
                 [GetSchema, GenerateSql, ExecuteQuery sql, LogQuery auditLogEntry]))
          else
            (let formattedResults =
                   (case formatTimestamps (host_parse env) (JArr (results queryExecution)) of
                      JArr rows \<Rightarrow> rows | _ \<Rightarrow> [])
             in case answer_outcome env of
                  Inl e \<Rightarrow>
                    (Inl e, w\<lparr> files := fs \<rparr>,
                     [GetSchema, GenerateSql, ExecuteQuery sql, GenerateResponse])
                | Inr answer \<Rightarrow>
                    (let auditLogEntry =
                           \<lparr> queryText = sql, userInput = message,
                             entry_executionTime = Some (executionTime queryExecution),
                             entry_rowCount = Some (rowCount queryExecution),
                             responseStatus = Success, errorMessage = None \<rparr>;
                         requestId = (case x_request_id req of Some r \<Rightarrow> JStr r | None \<Rightarrow> JUndefined);
                         fs' = snd (saveResultsAsJson (n8n env) requestId fs)
                     in (Inr (Reply 200
                           \<lparr> resp_message = answer, resp_sql = sql, resp_data = formattedResults,
                             conversationId = convId,
                             filename =
                               (case x_request_id req of
                                  Some r \<Rightarrow>
                                    if r = [] then None
                                    else Some (''query_'' @ file_timestamp (reply_time env) @ ''_'' @
                                               take 8 r @ ''.json'')
                                | None \<Rightarrow> None),
                             resp_asynchronous = None \<rparr>),
                         w\<lparr> files := fs',
                            audit_logs := logQuery (audit_insert_ok env) auditLogEntry (audit_logs w) \<rparr>,
                         [GetSchema, GenerateSql, ExecuteQuery sql, GenerateResponse,
                          LogQuery auditLogEntry, SaveResults])))))))"

definition processChat :: "chat_env \<Rightarrow> ChatRequest \<Rightarrow> world \<Rightarrow>
    (AppError + reply) \<times> world \<times> call list" where
  \<comment> \<open>The error passed on to the error handler, or the reply sent.\<close>
  "processChat env req w =
     (case validateChatMessage (req_message req) of
        Inl e \<Rightarrow> (Inl (new_AppError e ''VALIDATION_ERROR''), w, [])
      | Inr ok \<Rightarrow>
          (let message = (case req_message req of JStr s \<Rightarrow> s | _ \<Rightarrow> []);
               convId = (case req_conversationId req of
                           Some c \<Rightarrow> if c = [] then uuid env else c
                         | None \<Rightarrow> uuid env)
           in case pipeline env req message convId w of
                (Inr r, w', calls) \<Rightarrow> (Inr r, w', calls)
              | (Inl errMsg, w', calls) \<Rightarrow>
                  (let (userFriendlyMessage, code) = classify errMsg;
                       auditLogEntry =
                         \<lparr> queryText = [], userInput = message, entry_executionTime = None,
                           entry_rowCount = None, responseStatus = Error,
                           errorMessage = Some errMsg \<rparr>
                   in (Inl (new_AppError userFriendlyMessage code),
                       w'\<lparr> audit_logs := logQuery (audit_insert_ok env) auditLogEntry (audit_logs w') \<rparr>,
                       calls @ [LogQuery auditLogEntry]))))"

definition audit_calls :: "call list \<Rightarrow> AuditLogEntry list" where
  \<comment> \<open>The entries that were handed to \<open>logQuery\<close>, in order.\<close>
  "audit_calls calls = concat (map (\<lambda>c. case c of LogQuery e \<Rightarrow> [e] | _ \<Rightarrow> []) calls)"

definition outcome_status :: "AppError + reply \<Rightarrow> response_status" where
  \<comment> \<open>The status that belongs to an outcome: an error, the acceptance with HTTP 202, or
      the synchronous reply.\<close>
  "outcome_status r =
     (case r of Inl e \<Rightarrow> Error | Inr (Reply code body) \<Rightarrow> if code = 202 then Async else Success)"

text \<open>A request and its collaborators for the examples: the executor only acknowledges.\<close>

definition example_n8n :: n8n_env where
  "example_n8n =
     \<lparr> webhookUrl = ''http://localhost:5678/webhook/execute-query'',
       http = Responded (JObj [(''message'', JStr ''Workflow was started'')]),
       elapsed = 12, stringify = (\<lambda>v. ''{}''), fs_ok = True, save_time = 1697380222000 \<rparr>"

definition example_env :: chat_env where
  "example_env =
     \<lparr> uuid = ''3f2b8c1e-0000-4000-8000-000000000001'',
       schema_outcome = Inr \<lparr> tables = [] \<rparr>,
       sql_outcome = Inr ''SELECT * FROM users'',
       n8n = example_n8n,
       answer_outcome = Inr ''There are no users.'',
       audit_insert_ok = True,
       reply_time = 1697380222500,
       host_parse = (\<lambda>s. None) \<rparr>"

definition example_request :: "jsvalue \<Rightarrow> ChatRequest" where
  "example_request m =
     \<lparr> req_message = m, req_conversationId = None,
       x_request_id = Some ''9d1c7a52-1111-4222-8333-444444444444'' \<rparr>"

definition empty_world :: world where
  "empty_world = \<lparr> audit_logs = [], files = [] \<rparr>"

section \<open>Properties of the matcher\<close>

lemma is_space_upper: "is_space x \<Longrightarrow> upper_char x = x"
  by (auto simp: is_space_def upper_char_def is_lower_def)

lemma is_digit_upper: "is_digit x \<Longrightarrow> upper_char x = x"
  by (auto simp: is_digit_def upper_char_def is_lower_def)

lemma in_cls_canon: "in_cls k x \<Longrightarrow> canon ic x = x"
  by (cases k) (simp_all add: canon_def is_space_upper is_digit_upper)

lemma cls_disjoint: "k \<noteq> k' \<Longrightarrow> in_cls k x \<Longrightarrow> \<not> in_cls k' x"
  by (cases k; cases k') (auto simp: is_space_def is_digit_def)

lemma match_here_sound:
  "match_here ic pat s = Some m \<Longrightarrow> (\<exists>post. s = m @ post) \<and> re_matches ic pat m"
proof (induction ic pat s arbitrary: m rule: match_here.induct)
  case (6 ic k as s)
  let ?w = "takeWhile (in_cls k) s"
  from "6.prems" have ne: "?w \<noteq> []" by (simp split: if_splits)
  from "6.prems" ne obtain m' where m': "match_here ic as (dropWhile (in_cls k) s) = Some m'"
    and m: "m = ?w @ m'" by (auto split: if_splits)
  from "6.IH"[OF ne m'] obtain post where post: "dropWhile (in_cls k) s = m' @ post"
    and r: "re_matches ic as m'" by blast
  have "s = ?w @ dropWhile (in_cls k) s" by simp
  with post have s: "s = m @ post" using m by simp
  have "length ?w \<in> {1..length m}" using ne m by (cases ?w) auto
  moreover have "\<forall>x \<in> set (take (length ?w) m). in_cls k x"
    using m by (auto dest: set_takeWhileD)
  moreover have "re_matches ic as (drop (length ?w) m)" using m r by simp
  ultimately have "re_matches ic (Many1 k # as) m" by auto
  with s show ?case by blast
next
  case (7 ic k as s)
  let ?w = "takeWhile (in_cls k) s"
  from "7.prems" obtain m' where m': "match_here ic as (dropWhile (in_cls k) s) = Some m'"
    and m: "m = ?w @ m'" by auto
  from "7.IH"[OF m'] obtain post where post: "dropWhile (in_cls k) s = m' @ post"
    and r: "re_matches ic as m'" by blast
  have "s = ?w @ dropWhile (in_cls k) s" by simp
  with post have s: "s = m @ post" using m by simp
  have "length ?w \<in> {0..length m}" using m by auto
  moreover have "\<forall>x \<in> set (take (length ?w) m). in_cls k x"
    using m by (auto dest: set_takeWhileD)
  moreover have "re_matches ic as (drop (length ?w) m)" using m r by simp
  ultimately have "re_matches ic (Many0 k # as) m" by auto
  with s show ?case by blast
qed (auto split: if_splits)

lemma follows_outside_head:
  "follows_outside ic k a \<Longrightarrow> re_matches ic (a # as) m \<Longrightarrow> \<exists>x r. m = x # r \<and> \<not> in_cls k x"
proof (cases a)
  case (Ch c)
  assume f: "follows_outside ic k a" and r: "re_matches ic (a # as) m"
  from r Ch obtain x xs where m: "m = x # xs" and cm: "char_match ic c x"
    by (auto split: list.splits)
  have "\<not> in_cls k x"
  proof
    assume "in_cls k x"
    then have "canon ic x = x" by (rule in_cls_canon)
    with cm have "canon ic c = x" by (simp add: char_match_def)
    with f Ch \<open>in_cls k x\<close> show False by simp
  qed
  with m show ?thesis by blast
next
  case (One k')
  assume "follows_outside ic k a" and "re_matches ic (a # as) m"
  with One show ?thesis by (auto split: list.splits dest: cls_disjoint)
next
  case (Many1 k')
  assume f: "follows_outside ic k a" and r: "re_matches ic (a # as) m"
  from r Many1 obtain n where n: "1 \<le> n" "n \<le> length m" and a: "\<forall>x \<in> set (take n m). in_cls k' x"
    by auto
  then obtain x xs where m: "m = x # xs" by (cases m) auto
  with n a have "in_cls k' x" by (cases n) auto
  with f Many1 have "\<not> in_cls k x" by (auto dest: cls_disjoint)
  with m show ?thesis by blast
next
  case (Many0 k')
  assume "follows_outside ic k a"
  with Many0 show ?thesis by simp
qed

lemma takeWhile_run:
  "\<forall>x \<in> set w. P x \<Longrightarrow> (r = [] \<or> \<not> P (hd r)) \<Longrightarrow> takeWhile P (w @ r) = w \<and> dropWhile P (w @ r) = r"
  by (induction w) (cases r; auto)+

lemma many_split:
  assumes wf: "well_formed ic (Many k # as)" "Many = Many1 \<or> Many = Many0"
    and n: "n \<le> length m" and a: "\<forall>x \<in> set (take n m). in_cls k x"
    and r: "re_matches ic as (drop n m)"
    and nil: "as = [] \<Longrightarrow> post = []"
  shows "takeWhile (in_cls k) (m @ post) = take n m \<and> dropWhile (in_cls k) (m @ post) = drop n m @ post"
proof -
  have "drop n m @ post = [] \<or> \<not> in_cls k (hd (drop n m @ post))"
  proof (cases as)
    case Nil
    with r nil show ?thesis by simp
  next
    case (Cons b bs)
    with wf have "follows_outside ic k b" by auto
    from follows_outside_head[OF this] r Cons obtain x xs where "drop n m = x # xs" "\<not> in_cls k x"
      by blast
    then show ?thesis by simp
  qed
  from takeWhile_run[OF a this] show ?thesis
    by (metis append.assoc append_take_drop_id)
qed


lemma match_here_complete:
  "well_formed ic pat \<Longrightarrow> re_matches ic pat m \<Longrightarrow> \<exists>m'. match_here ic pat (m @ post) = Some m'"
proof (induction pat arbitrary: m)
  case Nil
  then show ?case by simp
next
  case (Cons a as)
  have wf_as: "well_formed ic as"
    using Cons.prems(1) by (cases a; cases as) auto
  show ?case
  proof (cases a)
    case (Ch c)
    with Cons.prems obtain x xs where m: "m = x # xs" and cm: "char_match ic c x"
      and r: "re_matches ic as xs" by (auto split: list.splits)
    from Cons.IH[OF wf_as r] obtain m' where "match_here ic as (xs @ post) = Some m'" by blast
    with Ch m cm show ?thesis by simp
  next
    case (One k)
    with Cons.prems obtain x xs where m: "m = x # xs" and cm: "in_cls k x"
      and r: "re_matches ic as xs" by (auto split: list.splits)
    from Cons.IH[OF wf_as r] obtain m' where "match_here ic as (xs @ post) = Some m'" by blast
    with One m cm show ?thesis by simp
  next
    case (Many1 k)
    with Cons.prems obtain n where n: "1 \<le> n" "n \<le> length m"
      and a: "\<forall>x \<in> set (take n m). in_cls k x" and r: "re_matches ic as (drop n m)" by auto
    show ?thesis
    proof (cases as)
      case Nil
      from n a obtain x xs where "m = x # xs" "in_cls k x" by (cases m; cases n) auto
      then have "takeWhile (in_cls k) (m @ post) \<noteq> []" by simp
      with Many1 Nil show ?thesis by simp
    next
      case (Cons b bs)
      have "takeWhile (in_cls k) (m @ post) = take n m \<and>
            dropWhile (in_cls k) (m @ post) = drop n m @ post"
        using many_split[of ic Many1 k as n m post] Cons.prems(1) Many1 n a r Cons by simp
      moreover have "take n m \<noteq> []" using n by (cases m) auto
      moreover from Cons.IH[OF wf_as r] obtain m' where
        "match_here ic as (drop n m @ post) = Some m'" by blast
      ultimately show ?thesis using Many1 by simp
    qed
  next
    case (Many0 k)
    with Cons.prems obtain n where n: "n \<le> length m"
      and a: "\<forall>x \<in> set (take n m). in_cls k x" and r: "re_matches ic as (drop n m)" by auto
    show ?thesis
    proof (cases as)
      case Nil
      with Many0 show ?thesis by simp
    next
      case (Cons b bs)
      have "takeWhile (in_cls k) (m @ post) = take n m \<and>
            dropWhile (in_cls k) (m @ post) = drop n m @ post"
        using many_split[of ic Many0 k as n m post] Cons.prems(1) Many0 n a r Cons by simp
      moreover from Cons.IH[OF wf_as r] obtain m' where
        "match_here ic as (drop n m @ post) = Some m'" by blast
      ultimately show ?thesis using Many0 by simp
    qed
  qed
qed

lemma search_append:
  "match_here ic pat s \<noteq> None \<Longrightarrow> search ic pat (pre @ s) \<noteq> None"
proof (induction pre)
  case Nil
  then show ?case by (cases s) auto
next
  case (Cons x pre)
  then show ?case by (auto split: option.splits)
qed

lemma contains_matchI:
  "s = pre @ m @ post \<Longrightarrow> re_matches ic pat m \<Longrightarrow> contains_match ic pat s"
  unfolding contains_match_def
  by (rule bexI[of _ "length pre"], rule bexI[of _ "length m"]) auto

lemma contains_matchE:
  assumes "contains_match ic pat s"
  obtains pre m post where "s = pre @ m @ post" "re_matches ic pat m"
proof -
  from assms obtain i n where "re_matches ic pat (take n (drop i s))"
    unfolding contains_match_def by blast
  moreover have "s = take i s @ take n (drop i s) @ drop n (drop i s)"
    by (simp only: append_take_drop_id)
  ultimately show ?thesis using that by blast
qed

lemma search_complete:
  assumes "well_formed ic pat" "contains_match ic pat s"
  shows "search ic pat s \<noteq> None"
proof -
  from assms(2) obtain pre m post where s: "s = pre @ m @ post" and r: "re_matches ic pat m"
    by (rule contains_matchE)
  from match_here_complete[OF assms(1) r, of post] have "match_here ic pat (m @ post) \<noteq> None"
    by auto
  then show ?thesis unfolding s by (rule search_append)
qed

lemma search_sound:
  "search ic pat s = Some m \<Longrightarrow> contains_match ic pat s"
proof (induction s)
  case Nil
  then have "re_matches ic pat m" "m = []" using match_here_sound[of ic pat "[]" m] by auto
  then show ?case by (auto intro: contains_matchI[of _ "[]" "[]" "[]"])
next
  case (Cons x xs)
  show ?case
  proof (cases "match_here ic pat (x # xs)")
    case None
    with Cons have "contains_match ic pat xs" by simp
    then obtain pre m' post where "xs = pre @ m' @ post" "re_matches ic pat m'"
      by (rule contains_matchE)
    then show ?thesis by (auto intro: contains_matchI[of _ "x # pre" m' post])
  next
    case (Some m')
    from match_here_sound[OF this] obtain post where "x # xs = m' @ post" "re_matches ic pat m'"
      by blast
    then show ?thesis by (auto intro: contains_matchI[of _ "[]" m' post])
  qed
qed

lemma test_iff_contains:
  "well_formed ic pat \<Longrightarrow> test ic pat s \<longleftrightarrow> contains_match ic pat s"
  unfolding test_def using search_complete[of ic pat s] search_sound[of ic pat s]
  by (cases "search ic pat s") auto

lemma wf_dangerous: "\<forall>p \<in> set dangerousPatterns. well_formed True p"
  by (simp add: dangerousPatterns_def lit_def canon_def upper_char_def is_lower_def is_space_def)


lemma first_dangerous_None:
  "first_dangerous ps sql = None \<longleftrightarrow> (\<forall>p \<in> set ps. search True p sql = None)"
  by (induction ps) (auto split: option.splits)

lemma first_dangerous_Some:
  "first_dangerous ps sql = Some m \<Longrightarrow> \<exists>p \<in> set ps. search True p sql = Some m"
  by (induction ps) (auto split: option.splits)

lemma search_match: "search ic pat s = Some m \<Longrightarrow> re_matches ic pat m"
proof (induction s)
  case Nil
  then show ?case using match_here_sound[of ic pat "[]" m] by auto
next
  case (Cons x xs)
  then show ?case using match_here_sound[of ic pat "x # xs" m] by (auto split: option.splits)
qed

lemma includes_single: "includes_str s [c] \<longleftrightarrow> c \<in> set s"
  by (induction s) (auto simp: startsWith_def)

lemma endsWith_single: "endsWith s [c] \<longleftrightarrow> s \<noteq> [] \<and> last s = c"
proof (cases s rule: rev_cases)
  case Nil
  then show ?thesis by (simp add: endsWith_def)
next
  case (snoc ys y)
  then show ?thesis by (auto simp: endsWith_def)
qed





lemma toUpperCase_Cons:
  "toUpperCase (x # xs) = (if x = CHR 0xDF then ''SS'' else [upper_char x]) @ toUpperCase xs"
  by (simp add: toUpperCase_def)

lemma upper_sharp_s: "upper_char (CHR 0xDF) = CHR 0xDF"
  by (simp add: upper_char_def is_lower_def)

lemma startsWith_Nil [simp]: "startsWith s []" "startsWith [] (p # ps) = False"
  by (simp_all add: startsWith_def)

lemma startsWith_Cons: "startsWith (x # xs) (p # ps) \<longleftrightarrow> x = p \<and> startsWith xs ps"
  by (simp add: startsWith_def)

lemma upper_step:
  "p \<noteq> CHR 0xDF \<Longrightarrow> (p = CHR ''S'' \<longrightarrow> ps \<noteq> [] \<and> hd ps \<noteq> CHR ''S'') \<Longrightarrow>
   startsWith (toUpperCase (x # xs)) (p # ps) \<longleftrightarrow> upper_char x = p \<and> startsWith (toUpperCase xs) ps"
  by (cases ps) (auto simp: toUpperCase_Cons startsWith_Cons upper_sharp_s)

lemma startsWith_upper_select:
  "startsWith (toUpperCase t) ''SELECT'' \<longleftrightarrow> map upper_char (take 6 t) = ''SELECT''"
  apply (cases t; simp add: toUpperCase_def[of "[]"] upper_step)
  subgoal for a t1
    apply (cases t1; simp add: toUpperCase_def[of "[]"] upper_step)
    subgoal for b t2
      apply (cases t2; simp add: toUpperCase_def[of "[]"] upper_step)
      subgoal for c t3
        apply (cases t3; simp add: toUpperCase_def[of "[]"] upper_step)
        subgoal for d t4
          apply (cases t4; simp add: toUpperCase_def[of "[]"] upper_step)
          subgoal for e t5
            by (cases t5; simp add: toUpperCase_def[of "[]"] upper_step)
          done
        done
      done
    done
  done

lemma begins_with_select_iff:
  "startsWith (toUpperCase (trim sql)) ''SELECT'' \<longleftrightarrow> begins_with_select sql"
  by (simp add: startsWith_upper_select begins_with_select_def)

lemma first_dangerous_iff:
  "first_dangerous dangerousPatterns sql = None \<longleftrightarrow> no_dangerous sql"
proof -
  have "search True p sql = None \<longleftrightarrow> \<not> contains_match True p sql"
    if "p \<in> set dangerousPatterns" for p
    using that wf_dangerous test_iff_contains[of True p sql] by (auto simp: test_def)
  then show ?thesis unfolding first_dangerous_None no_dangerous_def by blast
qed

lemma validate_dangerous:
  "\<not> no_dangerous sql \<Longrightarrow>
     \<exists>m p. validateSqlQuery sql = Inl (DangerousOperation m) \<and> p \<in> set dangerousPatterns \<and> re_matches True p m"
proof -
  assume "\<not> no_dangerous sql"
  then obtain m where m: "first_dangerous dangerousPatterns sql = Some m"
    using first_dangerous_iff[of sql] by (cases "first_dangerous dangerousPatterns sql") auto
  from first_dangerous_Some[OF m] obtain p where "p \<in> set dangerousPatterns" "search True p sql = Some m"
    by blast
  with search_match[of True p sql m] m show ?thesis by (auto simp: validateSqlQuery_def)
qed

lemma validate_safe:
  "no_dangerous sql \<Longrightarrow> validateSqlQuery sql =
     (if \<not> begins_with_select sql then Inl NotReadOnly
      else if count_char CHR ''('' sql \<noteq> count_char CHR '')'' sql then Inl UnbalancedParens
      else if CHR '';'' \<in> set sql \<and> \<not> (trim sql \<noteq> [] \<and> last (trim sql) = CHR '';'') then Inl MultipleStatements
      else if includes_str sql ''--'' \<or> includes_str sql ''/*'' then Inl CommentInjection
      else if length sql > 2000 then Inl TooLong
      else Inr True)"
  using first_dangerous_iff[of sql]
  by (simp add: validateSqlQuery_def begins_with_select_iff includes_single endsWith_single)

section \<open>The SQL validator: claims\<close>

lemma no_dangerous_eval:
  "first_dangerous dangerousPatterns sql = None \<Longrightarrow>
     \<forall>p \<in> set dangerousPatterns. \<not> contains_match True p sql"
  using first_dangerous_iff[of sql] by (simp add: no_dangerous_def)




text \<open>
  C2, as stated: every SQL text that does not begin with SELECT after trimming, such as
  \<open>UPDATE users SET x=1\<close>, is rejected with the error "Query must start with SELECT". The
  denylist is checked first: that statement is rejected as a dangerous operation.
\<close>

theorem validateSqlQuery_update_counterexample:
  "\<not> begins_with_select ''UPDATE users SET x=1'' \<and>
   validateSqlQuery ''UPDATE users SET x=1'' = Inl (DangerousOperation ''UPDATE '') \<and>
   validateSqlQuery ''UPDATE users SET x=1'' \<noteq> Inl NotReadOnly"
  by code_simp

text \<open>
  C2, amended: every SQL text whose trimmed text does not begin with SELECT (in any
  letter case) is rejected: as a dangerous operation when some stretch of it matches a
  denylisted pattern, as \<open>UPDATE users SET x=1\<close> is, and with the error "Query must start
  with SELECT" otherwise.
\<close>

theorem validateSqlQuery_not_read_only:
  assumes "\<not> begins_with_select sql"
  shows "(if \<exists>p \<in> set dangerousPatterns. contains_match True p sql
          then \<exists>m. validateSqlQuery sql = Inl (DangerousOperation m)
          else validateSqlQuery sql = Inl NotReadOnly) \<and>
         validateSqlQuery ''UPDATE users SET x=1'' = Inl (DangerousOperation ''UPDATE '')"
proof -
  have "validateSqlQuery ''UPDATE users SET x=1'' = Inl (DangerousOperation ''UPDATE '')"
    by code_simp
  with assms validate_dangerous[of sql] validate_safe[of sql] show ?thesis
    by (auto simp: no_dangerous_def)
qed

theorem validateSqlQuery_not_read_only_witness:
  "\<not> begins_with_select ''SHOW TABLES'' \<and> validateSqlQuery ''SHOW TABLES'' = Inl NotReadOnly"
proof -
  have h: "\<not> begins_with_select ''SHOW TABLES''" by code_simp
  have "first_dangerous dangerousPatterns ''SHOW TABLES'' = None"
    by code_simp
  then have "\<not> (\<exists>p \<in> set dangerousPatterns. contains_match True p ''SHOW TABLES'')"
    using no_dangerous_eval by blast
  with validateSqlQuery_not_read_only[OF h] h show ?thesis by simp
qed






section \<open>Properties of the calendar\<close>







lemma DayFromYear_estimate:
  "146097 * (y - 1970) - 506 \<le> 400 * DayFromYear y"
  "400 * DayFromYear y \<le> 146097 * (y - 1970) + 589"
proof -
  define q4 r4 where "q4 = (y - 1969) div 4" and "r4 = (y - 1969) mod 4"
  define q100 r100 where "q100 = (y - 1901) div 100" and "r100 = (y - 1901) mod 100"
  define q400 r400 where "q400 = (y - 1601) div 400" and "r400 = (y - 1601) mod 400"
  have e4: "y - 1969 = 4 * q4 + r4" and b4: "0 \<le> r4" "r4 < 4"
    by (simp_all add: q4_def r4_def)
  have e100: "y - 1901 = 100 * q100 + r100" and b100: "0 \<le> r100" "r100 < 100"
    by (simp_all add: q100_def r100_def)
  have e400: "y - 1601 = 400 * q400 + r400" and b400: "0 \<le> r400" "r400 < 400"
    by (simp_all add: q400_def r400_def)
  have a: "400 * q4 = 100 * (y - 1969) - 100 * r4" using e4 by simp
  have b: "400 * q100 = 4 * (y - 1901) - 4 * r100" using e100 by simp
  have c: "400 * q400 = (y - 1601) - r400" using e400 by simp
  have "400 * DayFromYear y = 146000 * (y - 1970) + 400 * q4 - 400 * q100 + 400 * q400"
    by (simp add: DayFromYear_def q4_def q100_def q400_def)
  also have "\<dots> = 146097 * (y - 1970) + 193 - 100 * r4 + 4 * r100 - r400"
    unfolding a b c by simp
  finally have d: "400 * DayFromYear y = 146097 * (y - 1970) + 193 - 100 * r4 + 4 * r100 - r400" .
  show "146097 * (y - 1970) - 506 \<le> 400 * DayFromYear y"
    unfolding d using b4 b100 b400 by simp
  show "400 * DayFromYear y \<le> 146097 * (y - 1970) + 589"
    unfolding d using b4 b100 b400 by simp
qed


lemma YearFromDay_correct:
  "DayFromYear (YearFromDay d) \<le> d \<and> d < DayFromYear (YearFromDay d + 1)"
proof -
  define g where "g = (400 * d) div 146097"
  define r where "r = (400 * d) mod 146097"
  define y0 where "y0 = 1970 + g"
  have e: "400 * d = 146097 * g + r" and b: "0 \<le> r" "r < 146097"
    by (simp_all add: g_def r_def)
  have "400 * DayFromYear (y0 - 1) \<le> 146097 * (y0 - 1 - 1970) + 589"
    by (rule DayFromYear_estimate(2))
  with e b have lo: "DayFromYear (y0 - 1) \<le> d" by (simp add: y0_def)
  have "146097 * (y0 + 2 - 1970) - 506 \<le> 400 * DayFromYear (y0 + 2)"
    by (rule DayFromYear_estimate(1))
  with e b have hi: "d < DayFromYear (y0 + 2)" by (simp add: y0_def)
  have yfd: "YearFromDay d =
     (if d < DayFromYear y0 then y0 - 1 else if DayFromYear (y0 + 1) \<le> d then y0 + 1 else y0)"
    by (simp add: YearFromDay_def g_def y0_def Let_def)
  show ?thesis
  proof (cases "d < DayFromYear y0")
    case True
    then have "YearFromDay d = y0 - 1" by (simp add: yfd)
    with lo True show ?thesis by simp
  next
    case False
    show ?thesis
    proof (cases "DayFromYear (y0 + 1) \<le> d")
      case True
      with False have "YearFromDay d = y0 + 1" by (simp add: yfd)
      moreover have "y0 + 1 + 1 = y0 + 2" by simp
      ultimately show ?thesis using True hi by (simp only:)
    next
      case f: False
      with False have "YearFromDay d = y0" by (simp add: yfd)
      with False f show ?thesis by simp
    qed
  qed
qed










section \<open>Properties of the formatting\<close>






lemma fixed_width_length:
  "fixed_width pat \<Longrightarrow> re_matches ic pat m \<Longrightarrow> length m = length pat"
  by (induction pat arbitrary: m rule: fixed_width.induct) (auto split: list.splits)

lemma fixed_width_well_formed: "fixed_width pat \<Longrightarrow> well_formed ic pat"
  by (induction pat rule: fixed_width.induct) (auto elim: well_formed.elims)


lemma timestamp_pattern_fixed: "fixed_width timestamp_pattern" "length timestamp_pattern = 19"
  by (simp_all add: timestamp_pattern_def lit_def numeral_eq_Suc)

lemma timestamp_shaped_iff:
  "timestamp_shaped s \<longleftrightarrow> re_matches False timestamp_pattern (take 19 s)"
proof
  assume "timestamp_shaped s"
  then obtain m where "match_here False timestamp_pattern s = Some m"
    by (auto simp: timestamp_shaped_def test_anchored_def)
  from match_here_sound[OF this] obtain post where s: "s = m @ post"
    and m: "re_matches False timestamp_pattern m" by blast
  from fixed_width_length[OF timestamp_pattern_fixed(1) m] have "length m = 19"
    by (simp add: timestamp_pattern_fixed(2))
  with s have "take 19 s = m" by simp
  with m show "re_matches False timestamp_pattern (take 19 s)" by simp
next
  assume "re_matches False timestamp_pattern (take 19 s)"
  from match_here_complete[OF fixed_width_well_formed[OF timestamp_pattern_fixed(1)] this, of "drop 19 s"]
  show "timestamp_shaped s" by (auto simp: timestamp_shaped_def test_anchored_def)
qed

lemma formatValue_frame: "\<not> rewritable v \<Longrightarrow> formatValue host v = v"
  by (cases v) (simp_all add: rewritable_def timestamp_shaped_iff)

lemma formatRow_entries:
  "\<exists>es. formatRow host row = JObj es \<and> map fst es = map fst (spread row) \<and>
     (\<forall>j < length es. es ! j = (fst (spread row ! j), formatValue host (snd (spread row ! j))))"
  by (simp add: formatRow_def case_prod_unfold comp_def)

section \<open>Formatting of result rows: claims\<close>



text \<open>
  C10: the formatted list has as many rows as the given one, in the same order; each
  row keeps its keys in their order, and every entry whose value is neither a \<open>Date\<close>
  object nor a string that starts with the shape \<open>dddd-dd-ddTdd:dd:dd\<close> is the entry of
  the given row.
\<close>

theorem formatTimestamps_frame:
  "\<exists>rows'. formatTimestamps host (JArr rows) = JArr rows' \<and> length rows' = length rows \<and>
     (\<forall>i < length rows. \<exists>es. rows' ! i = JObj es \<and>
        map fst es = map fst (spread (rows ! i)) \<and>
        (\<forall>j < length es. \<not> rewritable (snd (spread (rows ! i) ! j)) \<longrightarrow>
           es ! j = spread (rows ! i) ! j))"
proof -
  have "\<exists>es. map (formatRow host) rows ! i = JObj es \<and>
        map fst es = map fst (spread (rows ! i)) \<and>
        (\<forall>j < length es. \<not> rewritable (snd (spread (rows ! i) ! j)) \<longrightarrow>
           es ! j = spread (rows ! i) ! j)" if "i < length rows" for i
  proof -
    from formatRow_entries[of host "rows ! i"] obtain es where
      es: "formatRow host (rows ! i) = JObj es" "map fst es = map fst (spread (rows ! i))"
      "\<forall>j < length es. es ! j = (fst (spread (rows ! i) ! j), formatValue host (snd (spread (rows ! i) ! j)))"
      by blast
    have "es ! j = spread (rows ! i) ! j"
      if "j < length es" "\<not> rewritable (snd (spread (rows ! i) ! j))" for j
      using es(3) that formatValue_frame[OF that(2), of host] by simp
    with es that show ?thesis by simp
  qed
  then show ?thesis by (simp add: formatTimestamps_def)
qed

theorem formatTimestamps_frame_witness:
  "\<not> rewritable (JNum 1) \<and> \<not> rewritable (JStr ''2023-10-15'') \<and>
   (\<exists>rows'. formatTimestamps (\<lambda>s. None)
       (JArr [JObj [(''id'', JNum 1), (''day'', JStr ''2023-10-15''),
                    (''created_at'', JStr ''2023-10-15T14:30:22.000Z'')]]) = JArr rows' \<and>
     length rows' = 1 \<and>
     (\<exists>es. rows' ! 0 = JObj es \<and> map fst es = [''id'', ''day'', ''created_at''] \<and>
           es ! 0 = (''id'', JNum 1) \<and> es ! 1 = (''day'', JStr ''2023-10-15'')))"
proof -
  let ?row = "[(''id'', JNum 1), (''day'', JStr ''2023-10-15''),
               (''created_at'', JStr ''2023-10-15T14:30:22.000Z'')]"
  have r1: "\<not> rewritable (JNum 1)" by (simp add: rewritable_def)
  have "\<not> timestamp_shaped ''2023-10-15''" by code_simp
  then have r2: "\<not> rewritable (JStr ''2023-10-15'')"
    by (simp add: rewritable_def timestamp_shaped_iff)
  from formatTimestamps_frame[of "\<lambda>s. None" "[JObj ?row]"] obtain rows' where
    a: "formatTimestamps (\<lambda>s. None) (JArr [JObj ?row]) = JArr rows'" "length rows' = 1"
    and b: "\<forall>i < length [JObj ?row]. \<exists>es. rows' ! i = JObj es \<and>
        map fst es = map fst (spread ([JObj ?row] ! i)) \<and>
        (\<forall>j < length es. \<not> rewritable (snd (spread ([JObj ?row] ! i) ! j)) \<longrightarrow>
           es ! j = spread ([JObj ?row] ! i) ! j)"
    by auto
  from b[rule_format, of 0] obtain es where
    c: "rows' ! 0 = JObj es" "map fst es = map fst ?row"
    and d: "\<forall>j < length es. \<not> rewritable (snd (?row ! j)) \<longrightarrow> es ! j = ?row ! j"
    by auto
  from c(2) have l: "length es = 3" by (auto dest: map_eq_imp_length_eq)
  from d[rule_format, of 0] l r1 have e0: "es ! 0 = (''id'', JNum 1)" by simp
  from d[rule_format, of 1] l r2 have e1: "es ! 1 = (''day'', JStr ''2023-10-15'')" by simp
  from a c e0 e1 r1 r2 show ?thesis by auto
qed

section \<open>The schema service: claims\<close>

lemma discover_queries_fail:
  "discover db names acc = (Inl e, q) \<Longrightarrow>
     \<exists>t \<in> set names. isl (query_columns db t) \<or> isl (query_keys db t)"
proof (induction names arbitrary: acc q)
  case Nil
  then show ?case by simp
next
  case (Cons t rest)
  then show ?case
    by (auto simp: getColumns_def getRelationships_def Let_def
        split: sum.splits prod.splits)
qed

lemma discover_fails:
  "\<exists>t \<in> set names. isl (query_columns db t) \<or> isl (query_keys db t) \<Longrightarrow>
     isl (fst (discover db names acc))"
proof (induction names arbitrary: acc)
  case Nil
  then show ?case by simp
next
  case (Cons t rest)
  show ?case
  proof (cases "isl (query_columns db t) \<or> isl (query_keys db t)")
    case True
    then show ?thesis
      by (auto simp: getColumns_def getRelationships_def Let_def isl_def
          split: sum.splits prod.splits)
  next
    case False
    with Cons.prems have "\<exists>t \<in> set rest. isl (query_columns db t) \<or> isl (query_keys db t)"
      by auto
    from Cons.IH[OF this] have "\<And>acc. isl (fst (discover db rest acc))" .
    then show ?thesis
      by (simp add: getColumns_def getRelationships_def Let_def case_prod_unfold
          split: sum.splits)
  qed
qed

lemma discover_names:
  "discover db names acc = (Inr ts, q) \<Longrightarrow> map tbl_name ts = map tbl_name acc @ names"
proof (induction names arbitrary: acc q)
  case Nil
  then show ?case by simp
next
  case (Cons t rest)
  then show ?case
    by (auto simp: getColumns_def getRelationships_def Let_def
        split: sum.splits prod.splits)
qed

lemma refreshSchema_queries: "snd (snd (refreshSchema db now svc)) \<noteq> []"
  by (simp add: refreshSchema_def getTables_def split: sum.splits prod.splits)

lemma refreshSchema_interval:
  "refreshIntervalMs (fst (snd (refreshSchema db now svc))) = refreshIntervalMs svc"
  by (simp add: refreshSchema_def getTables_def split: sum.splits prod.splits)

text \<open>
  C7: \<open>getSchema\<close> refreshes the schema exactly when there is no snapshot, the refresh is
  forced, or more than the refresh interval has passed since the last refresh; a refresh
  sends at least one query to the database. Otherwise the cached snapshot is returned,
  the state is as before and no query is sent. The interval is one hour (3600000 ms)
  from the start, and no call changes it.
\<close>

theorem getSchema_refreshes_when_stale:
  "(schema svc = None \<or> forceRefresh \<or> currentTime - lastRefreshTime svc > refreshIntervalMs svc \<longrightarrow>
      getSchema db forceRefresh currentTime now svc =
        (case refreshSchema db now svc of
           (Inl e, svc', q) \<Rightarrow> (Inl e, svc', q)
         | (Inr u, svc', q) \<Rightarrow> (Inr (schema svc'), svc', q)) \<and>
      snd (snd (getSchema db forceRefresh currentTime now svc)) \<noteq> []) \<and>
   (\<not> (schema svc = None \<or> forceRefresh \<or> currentTime - lastRefreshTime svc > refreshIntervalMs svc) \<longrightarrow>
      getSchema db forceRefresh currentTime now svc = (Inr (schema svc), svc, [])) \<and>
   refreshIntervalMs (fst (snd (getSchema db forceRefresh currentTime now svc))) = refreshIntervalMs svc \<and>
   refreshIntervalMs new_SchemaService = 3600000"
  using refreshSchema_queries[of db now svc] refreshSchema_interval[of db now svc]
  by (auto simp: getSchema_def needs_refresh_def new_SchemaService_def
      split: sum.splits prod.splits)

theorem getSchema_refreshes_when_stale_witness:
  "getSchema (example_db False) False 3601000 3601005 example_service =
     (Inr (schema example_service), example_service, []) \<and>
   snd (snd (getSchema (example_db False) False 3601001 3601005 example_service)) \<noteq> [] \<and>
   snd (snd (getSchema (example_db False) True 2000 2005 example_service)) \<noteq> []"
proof -
  have a: "\<not> (schema example_service = None \<or> False \<or>
      3601000 - lastRefreshTime example_service > refreshIntervalMs example_service)"
    by (simp add: example_service_def)
  have b: "schema example_service = None \<or> False \<or>
      3601001 - lastRefreshTime example_service > refreshIntervalMs example_service"
    by (simp add: example_service_def)
  from getSchema_refreshes_when_stale[of example_service False 3601000 "example_db False" 3601005] a
  have 1: "getSchema (example_db False) False 3601000 3601005 example_service =
     (Inr (schema example_service), example_service, [])" by blast
  from getSchema_refreshes_when_stale[of example_service False 3601001 "example_db False" 3601005] b
  have 2: "snd (snd (getSchema (example_db False) False 3601001 3601005 example_service)) \<noteq> []"
    by blast
  from getSchema_refreshes_when_stale[of example_service True 2000 "example_db False" 2005]
  have 3: "snd (snd (getSchema (example_db False) True 2000 2005 example_service)) \<noteq> []"
    by blast
  from 1 2 3 show ?thesis by blast
qed

text \<open>
  C8: when a step of a refresh fails (the listing of the tables, or the columns or the
  relationships of a listed table), the error "Schema discovery failed" is raised and
  the state of the service, snapshot and time of the last refresh, is as before. When
  no step fails, the snapshot published has the listed tables, in the order of the
  listing, and the time of the last refresh is the time of this one.
\<close>

theorem refreshSchema_all_or_nothing:
  "(step_fails db \<longrightarrow>
      (\<exists>q. refreshSchema db now svc = (Inl ''Schema discovery failed'', svc, q))) \<and>
   (\<not> step_fails db \<longrightarrow>
      (\<exists>ts q. refreshSchema db now svc =
          (Inr (), svc\<lparr> schema := Some \<lparr> tables = ts \<rparr>, lastRefreshTime := now \<rparr>, q) \<and>
        query_tables db = Inr (map tbl_name ts)))"
proof (cases "query_tables db")
  case (Inl e)
  then show ?thesis by (simp add: refreshSchema_def getTables_def step_fails_def)
next
  case (Inr names)
  show ?thesis
  proof (cases "step_fails db")
    case True
    with Inr have "\<exists>t \<in> set names. isl (query_columns db t) \<or> isl (query_keys db t)"
      by (simp add: step_fails_def)
    from discover_fails[OF this, of "[]"] obtain e q where "discover db names [] = (Inl e, q)"
      by (cases "discover db names []") (auto simp: isl_def)
    with Inr True show ?thesis by (simp add: refreshSchema_def getTables_def)
  next
    case False
    with Inr have ok: "\<not> (\<exists>t \<in> set names. isl (query_columns db t) \<or> isl (query_keys db t))"
      by (simp add: step_fails_def)
    obtain r q where d: "discover db names [] = (r, q)" by (cases "discover db names []")
    with ok discover_queries_fail[of db names "[]"] obtain ts where r: "r = Inr ts"
      by (cases r) auto
    with d discover_names[of db names "[]" ts q] have "map tbl_name ts = names" by simp
    with Inr False d r show ?thesis by (auto simp: refreshSchema_def getTables_def)
  qed
qed

theorem refreshSchema_all_or_nothing_witness:
  "step_fails (example_db True) \<and>
   (\<exists>q. refreshSchema (example_db True) 5000 example_service =
      (Inl ''Schema discovery failed'', example_service, q)) \<and>
   \<not> step_fails (example_db False) \<and>
   (\<exists>ts q. refreshSchema (example_db False) 5000 example_service =
      (Inr (), example_service\<lparr> schema := Some \<lparr> tables = ts \<rparr>, lastRefreshTime := 5000 \<rparr>, q) \<and>
      map tbl_name ts = [''users'', ''orders''])"
proof -
  have f: "step_fails (example_db True)" by (simp add: step_fails_def example_db_def)
  have g: "\<not> step_fails (example_db False)" by (simp add: step_fails_def example_db_def)
  have t: "query_tables (example_db False) = Inr [''users'', ''orders'']"
    by (simp add: example_db_def)
  from refreshSchema_all_or_nothing[of "example_db True" 5000 example_service] f
  have 1: "\<exists>q. refreshSchema (example_db True) 5000 example_service =
      (Inl ''Schema discovery failed'', example_service, q)" by blast
  from refreshSchema_all_or_nothing[of "example_db False" 5000 example_service] g
  have 2: "\<exists>ts q. refreshSchema (example_db False) 5000 example_service =
      (Inr (), example_service\<lparr> schema := Some \<lparr> tables = ts \<rparr>, lastRefreshTime := 5000 \<rparr>, q) \<and>
      map tbl_name ts = [''users'', ''orders'']"
    unfolding t by auto
  from f g 1 2 show ?thesis by blast
qed

section \<open>The chat controller: claims\<close>

lemma pipeline_audit:
  assumes "pipeline env req message convId w = (r, w', calls)"
  shows "case r of
      Inl e \<Rightarrow> audit_calls calls = [] \<and> audit_logs w' = audit_logs w
    | Inr (Reply code body) \<Rightarrow>
        (code = 200 \<or> code = 202) \<and>
        (\<exists>entry. audit_calls calls = [entry] \<and>
           responseStatus entry = (if code = 202 then Async else Success) \<and>
           audit_logs w' = logQuery (audit_insert_ok env) entry (audit_logs w))"
  using assms
  by (auto simp: pipeline_def Let_def audit_calls_def
      split: sum.splits prod.splits if_splits)

lemma logQuery_append:
  "logQuery ok e logs = logs @ (if ok then [audit_row_of e] else [])"
  by (simp add: logQuery_def)

lemma audit_calls_append: "audit_calls (xs @ ys) = audit_calls xs @ audit_calls ys"
  by (simp add: audit_calls_def)

text \<open>
  C3, as stated: every inbound chat request appends exactly one audit record, also when
  the inbound message itself is rejected by the input validation. That rejection is
  thrown before the \<open>try\<close> block: for the message \<open>""\<close> nothing is handed to \<open>logQuery\<close> and
  the audit table stays empty. And \<open>logQuery\<close> swallows a failing insert: a request that is
  accepted while the audit table cannot be written leaves no record either.
\<close>

theorem processChat_invalid_message_counterexample:
  "processChat example_env (example_request (JStr [])) empty_world =
     (Inl \<lparr> app_message = ''Message is required and must be a string'',
            errorCode = ''VALIDATION_ERROR'', statusCode = 400 \<rparr>,
      \<lparr> audit_logs = [], files = [] \<rparr>, []) \<and>
   audit_logs (fst (snd (processChat (example_env\<lparr> audit_insert_ok := False \<rparr>)
      (example_request (JStr ''how many users?'')) empty_world))) = []"
proof -
  have "processChat example_env (example_request (JStr [])) empty_world =
     (Inl \<lparr> app_message = ''Message is required and must be a string'',
            errorCode = ''VALIDATION_ERROR'', statusCode = 400 \<rparr>,
      \<lparr> audit_logs = [], files = [] \<rparr>, [])"
    by (simp add: processChat_def example_request_def validateChatMessage_def new_AppError_def
        ERROR_CODES_def empty_world_def)
  moreover have "audit_logs (fst (snd (processChat (example_env\<lparr> audit_insert_ok := False \<rparr>)
      (example_request (JStr ''how many users?'')) empty_world))) = []"
    by code_simp
  ultimately show ?thesis by blast
qed

text \<open>
  C3, amended: for every chat request whose message passes the input validation,
  exactly one entry is handed to \<open>logQuery\<close>, with the status \<open>success\<close> when the reply is the
  synchronous one (HTTP 200), \<open>async\<close> when it is the acceptance (HTTP 202) and \<open>error\<close> when
  the request fails; the audit table grows by the row of that entry when the insert
  succeeds and stays as it is when the insert fails. A request whose message is
  rejected by the input validation fails with a validation error, and no entry is
  handed to \<open>logQuery\<close>.
\<close>

theorem processChat_one_audit_record:
  assumes "processChat env req w = (r, w', calls)"
  shows "case validateChatMessage (req_message req) of
      Inr ok \<Rightarrow>
        (\<forall>code body. r = Inr (Reply code body) \<longrightarrow> code = 200 \<or> code = 202) \<and>
        (\<exists>entry. audit_calls calls = [entry] \<and>
           responseStatus entry = outcome_status r \<and>
           audit_logs w' = audit_logs w @ (if audit_insert_ok env then [audit_row_of entry] else []))
    | Inl e \<Rightarrow>
        r = Inl (new_AppError e ''VALIDATION_ERROR'') \<and> w' = w \<and> audit_calls calls = []"
proof (cases "validateChatMessage (req_message req)")
  case (Inl e)
  with assms show ?thesis by (auto simp: processChat_def audit_calls_def)
next
  case (Inr ok)
  define message where "message = (case req_message req of JStr s \<Rightarrow> s | _ \<Rightarrow> [])"
  define convId where "convId = (case req_conversationId req of
      Some c \<Rightarrow> if c = [] then uuid env else c | None \<Rightarrow> uuid env)"
  obtain pr pw pc where p: "pipeline env req message convId w = (pr, pw, pc)"
    by (cases "pipeline env req message convId w")
  note pa = pipeline_audit[OF p]
  show ?thesis
  proof (cases pr)
    case (Inl e)
    with pa have "audit_calls pc = []" "audit_logs pw = audit_logs w" by simp_all
    with assms Inr Inl p show ?thesis
      by (auto simp: processChat_def Let_def message_def[symmetric] convId_def[symmetric]
          audit_calls_append outcome_status_def logQuery_append case_prod_unfold
          audit_calls_def[of "[x]" for x])
  next
    case r: (Inr rep)
    obtain code body where rep: "rep = Reply code body" by (cases rep)
    with pa r obtain entry where "code = 200 \<or> code = 202" "audit_calls pc = [entry]"
      "responseStatus entry = (if code = 202 then Async else Success)"
      "audit_logs pw = logQuery (audit_insert_ok env) entry (audit_logs w)"
      by auto
    with assms Inr r rep p show ?thesis
      by (auto simp: processChat_def Let_def message_def[symmetric] convId_def[symmetric]
          outcome_status_def logQuery_append)
  qed
qed

theorem processChat_one_audit_record_witness:
  "validateChatMessage (JStr ''how many users?'') = Inr True \<and>
   (\<exists>r w' calls entry.
      processChat example_env (example_request (JStr ''how many users?'')) empty_world = (r, w', calls) \<and>
      audit_calls calls = [entry] \<and> responseStatus entry = outcome_status r \<and>
      audit_logs w' = [audit_row_of entry])"
proof -
  have v: "validateChatMessage (JStr ''how many users?'') = Inr True" by code_simp
  obtain r w' calls where
    p: "processChat example_env (example_request (JStr ''how many users?'')) empty_world = (r, w', calls)"
    by (cases "processChat example_env (example_request (JStr ''how many users?'')) empty_world")
  have m: "req_message (example_request (JStr ''how many users?'')) = JStr ''how many users?''"
    by (simp add: example_request_def)
  have "audit_insert_ok example_env" "audit_logs empty_world = []"
    by (simp_all add: example_env_def empty_world_def)
  with processChat_one_audit_record[OF p] v m obtain entry where
    "audit_calls calls = [entry]" "responseStatus entry = outcome_status r"
    "audit_logs w' = [audit_row_of entry]"
    by auto
  with p v show ?thesis by blast
qed



end
